theory Spec2Isabelle
  imports Main "HOL-Library.Sublist"
begin

section \<open>Strings\<close>

text \<open>
  The script \<^verbatim>\<open>cleanup-files/update_politicians_images.py\<close> works on Python strings.
  A Python string is modelled as a \<^typ>\<open>string\<close>, one \<^typ>\<open>char\<close> for each character.
  The script inspects five characters only: space, hyphen, apostrophe, double quote and
  the dot, and it tests the suffix \<^verbatim>\<open>.png\<close> after lowering the case.
\<close>

definition apostrophe :: char where
  "apostrophe = CHR 0x27"

definition dquote :: char where
  "dquote = CHR 0x22"

text \<open>The character class \<^verbatim>\<open>[-' ]\<close> of the three regular expressions.\<close>

definition is_sep :: "char \<Rightarrow> bool" where
  "is_sep c = (c = CHR ''-'' \<or> c = apostrophe \<or> c = CHR '' '')"

text \<open>\<^verbatim>\<open>re.sub(r"[-' ]", '_', s)\<close>: every character of the class becomes an underscore.\<close>

definition re_sub_sep :: "string \<Rightarrow> string" where
  "re_sub_sep s = map (\<lambda>c. if is_sep c then CHR ''_'' else c) s"

text \<open>\<^verbatim>\<open>s.replace('"', '')\<close>.\<close>

definition remove_dquotes :: "string \<Rightarrow> string" where
  "remove_dquotes s = filter (\<lambda>c. c \<noteq> dquote) s"

text \<open>
  \<^verbatim>\<open>
  def normalize(s):
      s = s.replace('"', '')
      return re.sub(r"[-' ]", '_', s)
  \<close>
\<close>

definition normalize :: "string \<Rightarrow> string" where
  "normalize s = re_sub_sep (remove_dquotes s)"

text \<open>
  \<^verbatim>\<open>re.split(r"[-' ]", name)\<close>: the pieces between the separators, empty pieces
  included; the empty string gives one empty piece.
\<close>

fun re_split_sep :: "string \<Rightarrow> string list" where
  "re_split_sep [] = [[]]"
| "re_split_sep (c # cs) =
     (if is_sep c then [] # re_split_sep cs
      else (case re_split_sep cs of
              [] \<Rightarrow> [[c]]
            | w # ws \<Rightarrow> (c # w) # ws))"

text \<open>\<^verbatim>\<open>[p for p in re.split(r"[-' ]", name) if p]\<close>.\<close>

definition name_parts :: "string \<Rightarrow> string list" where
  "name_parts name = filter (\<lambda>p. p \<noteq> []) (re_split_sep name)"

text \<open>\<^verbatim>\<open>s.startswith(p)\<close> and the substring test \<^verbatim>\<open>p in s\<close>.\<close>

fun startswith :: "string \<Rightarrow> string \<Rightarrow> bool" where
  "startswith s [] = True"
| "startswith [] (c # p) = False"
| "startswith (d # s) (c # p) = (d = c \<and> startswith s p)"

fun str_contains :: "string \<Rightarrow> string \<Rightarrow> bool" where
  "str_contains [] p = (p = [])"
| "str_contains (c # s) p = (startswith (c # s) p \<or> str_contains s p)"

text \<open>\<^verbatim>\<open>s.endswith(suf)\<close>.\<close>

definition endswith :: "string \<Rightarrow> string \<Rightarrow> bool" where
  "endswith s suf =
     (length suf \<le> length s \<and> drop (length s - length suf) s = suf)"

text \<open>
  \<^verbatim>\<open>f.lower()\<close>, on the letters A to Z. No other character lowers to one of
  the four characters of \<^verbatim>\<open>.png\<close>, the only use the script makes of the result.
\<close>

definition lower_char :: "char \<Rightarrow> char" where
  "lower_char c =
     (let n = (of_char c :: nat) in if 65 \<le> n \<and> n \<le> 90 then char_of (n + 32) else c)"

definition lower :: "string \<Rightarrow> string" where
  "lower s = map lower_char s"

text \<open>\<^verbatim>\<open>p.rfind(c)\<close>: the index of the last occurrence, \<open>-1\<close> when there is none.\<close>

primrec rfind_from :: "char \<Rightarrow> string \<Rightarrow> int \<Rightarrow> int \<Rightarrow> int" where
  "rfind_from c [] i found = found"
| "rfind_from c (x # xs) i found = rfind_from c xs (i + 1) (if x = c then i else found)"

definition rfind :: "string \<Rightarrow> char \<Rightarrow> int" where
  "rfind p c = rfind_from c p 0 (- 1)"

text \<open>
  \<^verbatim>\<open>os.path.splitext\<close>, which the script calls on each file name:
  \<^verbatim>\<open>
  sepIndex = p.rfind(sep)
  dotIndex = p.rfind(extsep)
  if dotIndex > sepIndex:
      filenameIndex = sepIndex + 1
      while filenameIndex < dotIndex:
          if p[filenameIndex:filenameIndex+1] != extsep:
              return p[:dotIndex], p[dotIndex:]
          filenameIndex += 1
  return p, p[:0]
  \<close>
  The extension starts at the last dot, unless only dots precede it in the file name.
\<close>

function splitext_loop :: "string \<Rightarrow> nat \<Rightarrow> nat \<Rightarrow> (string \<times> string) option" where
  "splitext_loop p filenameIndex dotIndex =
     (if filenameIndex < dotIndex then
        (if take 1 (drop filenameIndex p) \<noteq> ''.'' then Some (take dotIndex p, drop dotIndex p)
         else splitext_loop p (Suc filenameIndex) dotIndex)
      else None)"
  by pat_completeness auto
termination
  by (relation "measure (\<lambda>(p, filenameIndex, dotIndex). dotIndex - filenameIndex)") auto

declare splitext_loop.simps [simp del]

definition splitext :: "string \<Rightarrow> string \<times> string" where
  "splitext p =
     (let sepIndex = rfind p CHR ''/'';
          dotIndex = rfind p CHR ''.''
      in if dotIndex > sepIndex then
           (case splitext_loop p (nat (sepIndex + 1)) (nat dotIndex) of
              Some r \<Rightarrow> r
            | None \<Rightarrow> (p, []))
         else (p, []))"

text \<open>\<^verbatim>\<open>str(count)\<close> for a count that is never negative.\<close>

definition digit_char :: "nat \<Rightarrow> char" where
  "digit_char d = char_of (48 + d)"

function str_nat :: "nat \<Rightarrow> string" where
  "str_nat n = (if n < 10 then [digit_char n] else str_nat (n div 10) @ [digit_char (n mod 10)])"
  by pat_completeness auto
termination
  by (relation "measure (\<lambda>n. n)") auto

declare str_nat.simps [simp del]

section \<open>The image index\<close>

text \<open>
  A Python \<^verbatim>\<open>dict\<close> keeps its keys in insertion order, and storing under a key that is
  already present replaces the value where the key stands. It is modelled as an
  association list with distinct keys.
\<close>

type_synonym 'v dict = "(string \<times> 'v) list"

definition dict_get :: "'v dict \<Rightarrow> string \<Rightarrow> 'v option" where
  "dict_get d k = map_of d k"

fun dict_set :: "'v dict \<Rightarrow> string \<Rightarrow> 'v \<Rightarrow> 'v dict" where
  "dict_set [] k v = [(k, v)]"
| "dict_set ((k', v') # d) k v =
     (if k' = k then (k', v) # d else (k', v') # dict_set d k v)"

text \<open>
  \<^verbatim>\<open>
  image_files = [f for f in os.listdir(images_dir) if f.lower().endswith('.png')]
  norm_map = {re.sub(r"[-' ]", '_', os.path.splitext(f)[0]): f for f in image_files}
  \<close>
  The directory listing is the input; its order is the order of \<^verbatim>\<open>os.listdir\<close>.
\<close>

definition image_files :: "string list \<Rightarrow> string list" where
  "image_files listing = filter (\<lambda>f. endswith (lower f) ''.png'') listing"

definition image_key :: "string \<Rightarrow> string" where
  "image_key f = re_sub_sep (fst (splitext f))"

definition norm_map :: "string list \<Rightarrow> string dict" where
  "norm_map listing = foldl (\<lambda>d f. dict_set d (image_key f) f) [] (image_files listing)"

section \<open>The records and the matching loop\<close>

text \<open>
  An entry of \<^verbatim>\<open>politicians.json\<close> is a JSON object with the fields \<^verbatim>\<open>name\<close>
  (a string), \<^verbatim>\<open>aliases\<close> (a list of strings) and \<^verbatim>\<open>image\<close> (a string), each
  of which may be absent (\<open>None\<close>). Every other field of the object is in the
  extension part \<open>more\<close> of the record.
\<close>

record entry =
  e_name :: "string option"
  e_aliases :: "string list option"
  e_image :: "string option"

text \<open>\<^verbatim>\<open>entry.get('name', '')\<close> and \<^verbatim>\<open>entry.get('aliases', [])\<close>.\<close>

definition get_name :: "'a entry_scheme \<Rightarrow> string" where
  "get_name entry = (case e_name entry of None \<Rightarrow> [] | Some n \<Rightarrow> n)"

definition get_aliases :: "'a entry_scheme \<Rightarrow> string list" where
  "get_aliases entry = (case e_aliases entry of None \<Rightarrow> [] | Some as \<Rightarrow> as)"

text \<open>
  \<^verbatim>\<open>
  for alias in entry.get('aliases', []):
      norm_alias = normalize(alias)
      if norm_alias in norm_map:
          img = norm_map[norm_alias]
          break
  \<close>
\<close>

fun match_aliases :: "string dict \<Rightarrow> string list \<Rightarrow> string option" where
  "match_aliases nm [] = None"
| "match_aliases nm (alias # rest) =
     (case dict_get nm (normalize alias) of
        Some f \<Rightarrow> Some f
      | None \<Rightarrow> match_aliases nm rest)"

text \<open>
  \<^verbatim>\<open>
  for key, filename in norm_map.items():
      if all(normalize(p) in key for p in parts):
          img = filename
          break
  \<close>
\<close>

definition all_parts_in :: "string list \<Rightarrow> string \<Rightarrow> bool" where
  "all_parts_in parts key = list_all (\<lambda>p. str_contains key (normalize p)) parts"

fun match_parts :: "string list \<Rightarrow> string dict \<Rightarrow> string option" where
  "match_parts parts [] = None"
| "match_parts parts ((key, filename) # items) =
     (if all_parts_in parts key then Some filename else match_parts parts items)"

text \<open>The value of \<^verbatim>\<open>img\<close> when the loop body reaches \<^verbatim>\<open>if img:\<close>.\<close>

definition find_img :: "string dict \<Rightarrow> 'a entry_scheme \<Rightarrow> string option" where
  "find_img nm entry =
     (let name = get_name entry;
          norm_name = normalize name;
          img = (case dict_get nm norm_name of
                   Some f \<Rightarrow> Some f
                 | None \<Rightarrow> match_aliases nm (get_aliases entry))
      in case img of
           None \<Rightarrow> match_parts (name_parts name) nm
         | Some f \<Rightarrow> Some f)"

text \<open>\<^verbatim>\<open>if img:\<close> holds for a string that is not empty, and not for \<^verbatim>\<open>None\<close>.\<close>

definition truthy :: "string option \<Rightarrow> bool" where
  "truthy img = (case img of None \<Rightarrow> False | Some f \<Rightarrow> f \<noteq> [])"

definition diagnostic :: "string \<Rightarrow> string" where
  "diagnostic name = ''No image found for '' @ name"

text \<open>
  The loop over \<^verbatim>\<open>data\<close>, with the counter and the printed lines passed along:
  \<^verbatim>\<open>
  if img:
      entry['image'] = img
      count += 1
  else:
      print(f"No image found for {name}")
  \<close>
\<close>

primrec match_loop ::
  "string dict \<Rightarrow> 'a entry_scheme list \<Rightarrow> nat \<Rightarrow> string list \<Rightarrow>
     'a entry_scheme list \<times> nat \<times> string list" where
  "match_loop nm [] count out = ([], count, out)"
| "match_loop nm (entry # rest) count out =
     (let img = find_img nm entry
      in if truthy img then
           (case match_loop nm rest (count + 1) out of
              (data', count', out') \<Rightarrow> (entry\<lparr>e_image := img\<rparr> # data', count', out'))
         else
           (case match_loop nm rest count (out @ [diagnostic (get_name entry)]) of
              (data', count', out') \<Rightarrow> (entry # data', count', out')))"

text \<open>
  The whole script. Its inputs are the parsed content of the JSON file and the listing of
  the image directory, \<open>None\<close> when reading fails, which ends the run at once. Its
  results are the list written back and the lines printed.
\<close>

datatype error = JsonLoadError | ListdirError

definition summary :: "nat \<Rightarrow> string" where
  "summary count = ''Updated '' @ str_nat count @ '' entries''"

definition main ::
  "'a entry_scheme list option \<Rightarrow> string list option \<Rightarrow>
     error + ('a entry_scheme list \<times> string list)" where
  "main json_file dir_listing =
     (case json_file of
        None \<Rightarrow> Inl JsonLoadError
      | Some data \<Rightarrow>
          (case dir_listing of
             None \<Rightarrow> Inl ListdirError
           | Some listing \<Rightarrow>
               (case match_loop (norm_map listing) data 0 [] of
                  (data', count, out) \<Rightarrow> Inr (data', out @ [summary count]))))"

section \<open>The effect of the loop on one entry\<close>

text \<open>
  The branch \<^verbatim>\<open>if img:\<close> is the only place that stores into an entry. An entry's image
  is set when the branch is taken; the entry is left as it is otherwise, and its diagnostic
  is printed.
\<close>

definition sets_image :: "string dict \<Rightarrow> 'a entry_scheme \<Rightarrow> bool" where
  "sets_image nm entry = truthy (find_img nm entry)"

definition update_entry :: "string dict \<Rightarrow> 'a entry_scheme \<Rightarrow> 'a entry_scheme" where
  "update_entry nm entry =
     (if sets_image nm entry then entry\<lparr>e_image := find_img nm entry\<rparr> else entry)"

definition unmatched_lines :: "string dict \<Rightarrow> 'a entry_scheme list \<Rightarrow> string list" where
  "unmatched_lines nm data =
     map (\<lambda>r. diagnostic (get_name r)) (filter (\<lambda>r. \<not> sets_image nm r) data)"

section \<open>The matching contract\<close>

text \<open>
  The three stages as the contract words them: the exact name, then the aliases in their
  order, then the first key of the index that has every normalized part of the name as a
  substring.
\<close>

definition spec_match :: "string dict \<Rightarrow> 'a entry_scheme \<Rightarrow> string option" where
  "spec_match index r =
     (if normalize (get_name r) \<in> set (map fst index) then
        dict_get index (normalize (get_name r))
      else
        (case find (\<lambda>a. normalize a \<in> set (map fst index)) (get_aliases r) of
           Some a \<Rightarrow> dict_get index (normalize a)
         | None \<Rightarrow>
             (case find (\<lambda>(key, filename).
                           list_all (\<lambda>p. sublist (normalize p) key) (name_parts (get_name r)))
                        index of
                Some (key, filename) \<Rightarrow> Some filename
              | None \<Rightarrow> None)))"

section \<open>Reading the printed count\<close>

text \<open>
  The number that a string of decimal digits denotes, to say which count the last printed
  line reports.
\<close>

definition digit_value :: "char \<Rightarrow> nat" where
  "digit_value c = of_char c - 48"

definition decimal_value :: "string \<Rightarrow> nat" where
  "decimal_value s = foldl (\<lambda>a c. 10 * a + digit_value c) 0 s"

section \<open>Properties of the index and of the loop\<close>

lemma dict_get_dict_set:
  "dict_get (dict_set d k v) k' = (if k' = k then Some v else dict_get d k')"
  by (induction d) (auto simp: dict_get_def)

lemma dict_get_in_items: "dict_get d k = Some v \<Longrightarrow> (k, v) \<in> set d"
  by (simp add: dict_get_def map_of_SomeD)

lemma dict_set_item:
  "(k', v') \<in> set (dict_set d k v) \<Longrightarrow> v' = v \<or> (k', v') \<in> set d"
  by (induction d) (auto split: if_splits)

lemma dict_set_values: "snd ` set (dict_set d k v) \<subseteq> insert v (snd ` set d)"
  using dict_set_item [of _ _ d k v] by force

lemma foldl_dict_set_values:
  "snd ` set (foldl (\<lambda>d f. dict_set d (key f) f) d fs) \<subseteq> snd ` set d \<union> set fs"
proof (induction fs arbitrary: d)
  case Nil
  show ?case by simp
next
  case (Cons f fs)
  have "snd ` set (foldl (\<lambda>d f. dict_set d (key f) f) (dict_set d (key f) f) fs)
          \<subseteq> snd ` set (dict_set d (key f) f) \<union> set fs"
    by (rule Cons.IH)
  also have "\<dots> \<subseteq> insert f (snd ` set d) \<union> set fs"
    using dict_set_values [of d "key f" f] by blast
  finally show ?case by auto
qed

lemma norm_map_values: "snd ` set (norm_map listing) \<subseteq> set (image_files listing)"
  using foldl_dict_set_values [of image_key "[]" "image_files listing"]
  by (simp add: norm_map_def)

lemma image_file_nonempty: "f \<in> set (image_files listing) \<Longrightarrow> f \<noteq> []"
  by (auto simp: image_files_def endswith_def lower_def)

lemma norm_map_item_nonempty: "(k, f) \<in> set (norm_map listing) \<Longrightarrow> f \<noteq> []"
  using norm_map_values [of listing] image_file_nonempty [of f listing]
  by force

lemma match_aliases_item: "match_aliases nm as = Some f \<Longrightarrow> \<exists>k. (k, f) \<in> set nm"
  by (induction as) (auto split: option.splits dest: dict_get_in_items)

lemma match_parts_item: "match_parts parts nm = Some f \<Longrightarrow> \<exists>k. (k, f) \<in> set nm"
  by (induction nm) (auto split: if_splits)

lemma find_img_item: "find_img nm r = Some f \<Longrightarrow> \<exists>k. (k, f) \<in> set nm"
  by (auto simp: find_img_def Let_def split: option.splits
      dest: dict_get_in_items match_aliases_item match_parts_item)

lemma sets_image_norm_map:
  "sets_image (norm_map listing) r = (find_img (norm_map listing) r \<noteq> None)"
  by (auto simp: sets_image_def truthy_def split: option.splits
      dest!: find_img_item norm_map_item_nonempty)

lemma match_loop_eq:
  "match_loop nm data count out =
     (map (update_entry nm) data,
      count + length (filter (sets_image nm) data),
      out @ unmatched_lines nm data)"
  by (induction data arbitrary: count out)
     (simp_all add: Let_def update_entry_def sets_image_def unmatched_lines_def)

lemma main_eq:
  "main (Some data) (Some listing) =
     Inr (map (update_entry (norm_map listing)) data,
          unmatched_lines (norm_map listing) data
            @ [summary (length (filter (sets_image (norm_map listing)) data))])"
  by (simp add: main_def match_loop_eq)

lemma find_img_update [simp]: "find_img nm (r\<lparr>e_image := x\<rparr>) = find_img nm r"
  by (simp add: find_img_def get_name_def get_aliases_def cong: option.case_cong)

lemma find_img_update_entry [simp]: "find_img nm (update_entry nm r) = find_img nm r"
  by (simp add: update_entry_def)

lemma update_entry_idem: "update_entry nm (update_entry nm r) = update_entry nm r"
  by (simp add: update_entry_def sets_image_def)

lemma startswith_prefix: "startswith s p = prefix p s"
  by (induction s p rule: startswith.induct) auto

lemma str_contains_sublist: "str_contains s p = sublist p s"
proof (induction s)
  case Nil
  show ?case by auto
next
  case (Cons c s)
  show ?case
  proof (cases p)
    case Nil
    then show ?thesis by simp
  next
    case (Cons d q)
    then show ?thesis
      using Cons.IH by (simp add: startswith_prefix sublist_Cons_right)
  qed
qed

lemma dict_get_None_iff: "dict_get d k = None \<longleftrightarrow> k \<notin> set (map fst d)"
  by (simp add: dict_get_def map_of_eq_None_iff)

lemma match_aliases_find:
  "match_aliases nm as =
     (case find (\<lambda>a. normalize a \<in> set (map fst nm)) as of
        Some a \<Rightarrow> dict_get nm (normalize a)
      | None \<Rightarrow> None)"
proof (induction as)
  case Nil
  show ?case by simp
next
  case (Cons a as)
  show ?case
  proof (cases "dict_get nm (normalize a)")
    case None
    then have "normalize a \<notin> set (map fst nm)" by (simp add: dict_get_None_iff)
    with None Cons.IH show ?thesis by simp
  next
    case (Some f)
    then have "normalize a \<in> set (map fst nm)"
      using dict_get_None_iff [of nm "normalize a"] by auto
    with Some show ?thesis by simp
  qed
qed

lemma match_parts_find:
  "match_parts parts nm =
     (case find (\<lambda>(key, filename). list_all (\<lambda>p. sublist (normalize p) key) parts) nm of
        Some (key, filename) \<Rightarrow> Some filename
      | None \<Rightarrow> None)"
  by (induction nm) (auto simp: all_parts_in_def str_contains_sublist)

lemma dict_get_key: "dict_get d k = Some v \<Longrightarrow> k \<in> fst ` set d"
  by (force dest: dict_get_in_items)

lemma match_aliases_None_iff:
  "match_aliases nm as = None \<longleftrightarrow> find (\<lambda>a. normalize a \<in> set (map fst nm)) as = None"
  by (induction as) (auto simp: dict_get_None_iff split: option.splits dest: dict_get_key)

lemma find_img_spec_match: "find_img nm r = spec_match nm r"
proof (cases "dict_get nm (normalize (get_name r))")
  case None
  then have no_name: "normalize (get_name r) \<notin> set (map fst nm)"
    by (simp add: dict_get_None_iff)
  show ?thesis
  proof (cases "match_aliases nm (get_aliases r)")
    case no_alias: None
    then have "find (\<lambda>a. normalize a \<in> set (map fst nm)) (get_aliases r) = None"
      by (simp add: match_aliases_None_iff)
    with None no_name no_alias show ?thesis
      by (simp add: find_img_def spec_match_def match_parts_find)
  next
    case (Some f)
    then obtain a where
      a: "find (\<lambda>a. normalize a \<in> set (map fst nm)) (get_aliases r) = Some a"
      using match_aliases_None_iff [of nm "get_aliases r"] by fastforce
    with Some have "dict_get nm (normalize a) = Some f"
      using match_aliases_find [of nm "get_aliases r"] by simp
    with None no_name Some a show ?thesis
      by (simp add: find_img_def spec_match_def)
  qed
next
  case (Some f)
  then have "normalize (get_name r) \<in> set (map fst nm)"
    using dict_get_None_iff [of nm "normalize (get_name r)"] by auto
  with Some show ?thesis by (simp add: find_img_def spec_match_def)
qed

lemma update_entry_norm_map:
  "update_entry (norm_map listing) r =
     (case find_img (norm_map listing) r of None \<Rightarrow> r | Some f \<Rightarrow> r\<lparr>e_image := Some f\<rparr>)"
  by (simp add: update_entry_def sets_image_norm_map split: option.splits)

lemma remove_dquotes_re_sub_sep: "remove_dquotes (re_sub_sep s) = re_sub_sep (remove_dquotes s)"
  by (induction s)
     (auto simp: remove_dquotes_def re_sub_sep_def is_sep_def dquote_def apostrophe_def)

lemma remove_dquotes_id: "dquote \<notin> set s \<Longrightarrow> remove_dquotes s = s"
  by (induction s) (auto simp: remove_dquotes_def)

lemma foldl_dict_set_other:
  "\<forall>g\<in>set fs. key g \<noteq> k \<Longrightarrow>
   dict_get (foldl (\<lambda>d f. dict_set d (key f) f) d fs) k = dict_get d k"
  by (induction fs arbitrary: d) (auto simp: dict_get_dict_set)

lemma norm_map_last:
  assumes "endswith (lower f) ''.png''"
    and "\<forall>g\<in>set (image_files post). image_key g \<noteq> image_key f"
  shows "dict_get (norm_map (pre @ f # post)) (image_key f) = Some f"
proof -
  have "image_files (pre @ f # post) = image_files pre @ f # image_files post"
    using assms(1) by (simp add: image_files_def)
  then show ?thesis
    using assms(2) by (simp add: norm_map_def foldl_dict_set_other dict_get_dict_set)
qed

lemma find_img_name:
  "dict_get nm (normalize (get_name r)) = Some f \<Longrightarrow> find_img nm r = Some f"
  by (simp add: find_img_def)

lemma match_aliases_skip:
  "\<forall>b\<in>set pre. dict_get nm (normalize b) = None \<Longrightarrow>
   match_aliases nm (pre @ rest) = match_aliases nm rest"
  by (induction pre) simp_all

lemma find_img_alias:
  assumes "dict_get nm (normalize (get_name r)) = None"
    and "get_aliases r = pre @ a # post"
    and "\<forall>b\<in>set pre. dict_get nm (normalize b) = None"
    and "dict_get nm (normalize a) = Some f"
  shows "find_img nm r = Some f"
  using assms by (simp add: find_img_def match_aliases_skip)

lemma main_nth:
  assumes "main (Some data) (Some listing) = Inr (data', out)" and "i < length data"
  shows "data' ! i = update_entry (norm_map listing) (data ! i)"
  using assms by (auto simp: main_eq)

lemma main_length:
  "main (Some data) (Some listing) = Inr (data', out) \<Longrightarrow> length data' = length data"
  by (auto simp: main_eq)

lemma update_entry_found:
  "find_img (norm_map listing) r = Some f \<Longrightarrow>
   update_entry (norm_map listing) r = r\<lparr>e_image := Some f\<rparr>"
  by (simp add: update_entry_norm_map)

lemma update_entry_not_found:
  "find_img (norm_map listing) r = None \<Longrightarrow> update_entry (norm_map listing) r = r"
  by (simp add: update_entry_norm_map)

lemma match_loop_count_fresh:
  assumes "\<forall>r\<in>set data. e_image r = None"
  shows "length (filter (\<lambda>r. e_image r \<noteq> None) (map (update_entry (norm_map listing)) data)) =
         length (filter (sets_image (norm_map listing)) data)"
  using assms
proof (induction data)
  case Nil
  show ?case by simp
next
  case (Cons r data)
  then have r: "e_image r = None" by simp
  have "(e_image (update_entry (norm_map listing) r) \<noteq> None) = sets_image (norm_map listing) r"
    by (cases "find_img (norm_map listing) r")
       (simp_all add: update_entry_norm_map sets_image_norm_map r)
  with Cons show ?case by simp
qed

lemma match_parts_no_parts: "match_parts [] ((key, filename) # items) = Some filename"
  by (simp add: all_parts_in_def)

lemma re_split_sep_nonempty: "re_split_sep s \<noteq> []"
  by (induction s) (auto split: list.splits)

lemma name_parts_empty_iff: "name_parts name = [] \<longleftrightarrow> (\<forall>c\<in>set name. is_sep c)"
proof (induction name)
  case Nil
  show ?case by (simp add: name_parts_def)
next
  case (Cons c cs)
  show ?case
  proof (cases "is_sep c")
    case True
    with Cons show ?thesis by (simp add: name_parts_def)
  next
    case False
    obtain w ws where "re_split_sep cs = w # ws"
      using re_split_sep_nonempty [of cs] by (cases "re_split_sep cs") auto
    with False show ?thesis by (simp add: name_parts_def)
  qed
qed

lemma digit_value_digit_char: "d < 10 \<Longrightarrow> digit_value (digit_char d) = d"
  by (simp add: digit_value_def digit_char_def)

lemma decimal_value_snoc:
  "decimal_value (s @ [c]) = 10 * decimal_value s + digit_value c"
  by (simp add: decimal_value_def)

lemma decimal_value_str_nat: "decimal_value (str_nat n) = n"
proof (induction n rule: str_nat.induct)
  case (1 n)
  show ?case
  proof (cases "n < 10")
    case True
    then have "str_nat n = [digit_char n]" by (simp add: str_nat.simps)
    with True show ?thesis
      using decimal_value_snoc [of "[]" "digit_char n"]
      by (simp add: digit_value_digit_char decimal_value_def)
  next
    case False
    then have "str_nat n = str_nat (n div 10) @ [digit_char (n mod 10)]"
      by (subst str_nat.simps) simp
    with False "1.IH" show ?thesis
      by (simp add: decimal_value_snoc digit_value_digit_char)
  qed
qed

section \<open>The claims\<close>

text \<open>
  Claim C1. Each record is matched in three stages, in a fixed order, and the first stage
  that succeeds decides: the exact name, then the aliases in their given order, then the
  first key of the index, in its iteration order, that contains every normalized part of
  the name. The list that the run writes is the input list with each record given the
  file name that the contract finds for it, and left as it is when the contract finds none.
\<close>

theorem C1_stages_in_order:
  "\<exists>out. main (Some data) (Some listing) =
     Inr (map (\<lambda>r. case spec_match (norm_map listing) r of
                      None \<Rightarrow> r
                    | Some f \<Rightarrow> r\<lparr>e_image := Some f\<rparr>) data, out)"
  by (simp add: main_eq update_entry_norm_map find_img_spec_match)

theorem C1_stages_in_order_witness:
  "\<exists>out. main (Some
       [\<lparr>e_name = Some ''Ann Lee'', e_aliases = Some [''Bob Ray''], e_image = None\<rparr>,
        \<lparr>e_name = Some ''Robert Ray'', e_aliases = Some [''Bobby'', ''Bob Ray''],
           e_image = Some ''old.png''\<rparr>,
        \<lparr>e_name = Some ''Dee-Cy'', e_aliases = None, e_image = None\<rparr>,
        \<lparr>e_name = Some ''Eve'', e_aliases = Some [], e_image = Some ''eve.png''\<rparr>])
       (Some [''Ann_Lee.png'', ''notes.txt'', ''Bob-Ray.PNG'', ''Cy_Dee_Jr.png'']) =
     Inr ([\<lparr>e_name = Some ''Ann Lee'', e_aliases = Some [''Bob Ray''],
              e_image = Some ''Ann_Lee.png''\<rparr>,
           \<lparr>e_name = Some ''Robert Ray'', e_aliases = Some [''Bobby'', ''Bob Ray''],
              e_image = Some ''Bob-Ray.PNG''\<rparr>,
           \<lparr>e_name = Some ''Dee-Cy'', e_aliases = None, e_image = Some ''Cy_Dee_Jr.png''\<rparr>,
           \<lparr>e_name = Some ''Eve'', e_aliases = Some [], e_image = Some ''eve.png''\<rparr>], out)"
proof -
  have stages:
    "map (\<lambda>r. case spec_match
                      (norm_map [''Ann_Lee.png'', ''notes.txt'', ''Bob-Ray.PNG'', ''Cy_Dee_Jr.png''])
                      r of
                 None \<Rightarrow> r
               | Some f \<Rightarrow> r\<lparr>e_image := Some f\<rparr>)
       [\<lparr>e_name = Some ''Ann Lee'', e_aliases = Some [''Bob Ray''], e_image = None\<rparr>,
        \<lparr>e_name = Some ''Robert Ray'', e_aliases = Some [''Bobby'', ''Bob Ray''],
           e_image = Some ''old.png''\<rparr>,
        \<lparr>e_name = Some ''Dee-Cy'', e_aliases = None, e_image = None\<rparr>,
        \<lparr>e_name = Some ''Eve'', e_aliases = Some [], e_image = Some ''eve.png''\<rparr>] =
     [\<lparr>e_name = Some ''Ann Lee'', e_aliases = Some [''Bob Ray''],
         e_image = Some ''Ann_Lee.png''\<rparr>,
      \<lparr>e_name = Some ''Robert Ray'', e_aliases = Some [''Bobby'', ''Bob Ray''],
         e_image = Some ''Bob-Ray.PNG''\<rparr>,
      \<lparr>e_name = Some ''Dee-Cy'', e_aliases = None, e_image = Some ''Cy_Dee_Jr.png''\<rparr>,
      \<lparr>e_name = Some ''Eve'', e_aliases = Some [], e_image = Some ''eve.png''\<rparr>]"
    by code_simp
  show ?thesis
    using C1_stages_in_order [of
        "[\<lparr>e_name = Some ''Ann Lee'', e_aliases = Some [''Bob Ray''], e_image = None\<rparr>,
          \<lparr>e_name = Some ''Robert Ray'', e_aliases = Some [''Bobby'', ''Bob Ray''],
             e_image = Some ''old.png''\<rparr>,
          \<lparr>e_name = Some ''Dee-Cy'', e_aliases = None, e_image = None\<rparr>,
          \<lparr>e_name = Some ''Eve'', e_aliases = Some [], e_image = Some ''eve.png''\<rparr>]"
        "[''Ann_Lee.png'', ''notes.txt'', ''Bob-Ray.PNG'', ''Cy_Dee_Jr.png'']"]
    unfolding stages .
qed

text \<open>
  Claim C2, as amended. The key of a file in the index is its stem with space, hyphen and
  apostrophe replaced by underscores; double quotes of the stem stay in the key, while
  \<open>normalize\<close> removes them from names and aliases. So \<open>normalize\<close> of the stem is the key
  with its double quotes removed, and the two are equal for every stem that has no double
  quote.
\<close>

theorem C2_key_normalize:
  "normalize (fst (splitext f)) = remove_dquotes (image_key f) \<and>
   (dquote \<notin> set (fst (splitext f)) \<longrightarrow> image_key f = normalize (fst (splitext f)))"
  by (simp add: normalize_def image_key_def remove_dquotes_re_sub_sep remove_dquotes_id)

theorem C2_key_normalize_witness:
  "dquote \<notin> set (fst (splitext ''Jane-Doe.png'')) \<and>
   image_key ''Jane-Doe.png'' = ''Jane_Doe'' \<and>
   normalize (fst (splitext ''Jane-Doe.png'')) = ''Jane_Doe''"
proof (intro conjI)
  show noq: "dquote \<notin> set (fst (splitext ''Jane-Doe.png''))" by code_simp
  show key: "image_key ''Jane-Doe.png'' = ''Jane_Doe''" by code_simp
  have "image_key ''Jane-Doe.png'' = normalize (fst (splitext ''Jane-Doe.png''))"
    by (rule mp [OF conjunct2 [OF C2_key_normalize] noq])
  then show "normalize (fst (splitext ''Jane-Doe.png'')) = ''Jane_Doe''"
    unfolding key by (rule sym)
qed

text \<open>
  Claim C2 as stated fails for a stem with a double quote: the file \<^verbatim>\<open>O"Neil.png\<close> has
  the stem and the key \<^verbatim>\<open>O"Neil\<close>, and \<open>normalize\<close> of that stem is \<^verbatim>\<open>ONeil\<close>.
\<close>

theorem C2_counterexample:
  "fst (splitext (''O'' @ dquote # ''Neil'' @ ''.png'')) = ''O'' @ dquote # ''Neil'' \<and>
   image_key (''O'' @ dquote # ''Neil'' @ ''.png'') = ''O'' @ dquote # ''Neil'' \<and>
   normalize (''O'' @ dquote # ''Neil'') = ''ONeil'' \<and>
   image_key (''O'' @ dquote # ''Neil'' @ ''.png'') \<noteq> normalize (''O'' @ dquote # ''Neil'')"
  by code_simp

text \<open>
  Claim C3, as amended. Let \<open>f\<close> be a file of the listing with the extension, and let no
  file listed after it with the extension have the same key. Then every record whose
  normalized name is the key of \<open>f\<close> has the image \<open>f\<close> after the run. The key of \<open>f\<close> is
  its stem with space, hyphen and apostrophe replaced by underscores, double quotes kept.
\<close>

theorem C3_name_match:
  assumes "main (Some data) (Some (pre @ f # post)) = Inr (data', out)"
    and "endswith (lower f) ''.png''"
    and "\<forall>g\<in>set (image_files post). image_key g \<noteq> image_key f"
    and "i < length data"
    and "normalize (get_name (data ! i)) = image_key f"
  shows "e_image (data' ! i) = Some f"
proof -
  have "dict_get (norm_map (pre @ f # post)) (normalize (get_name (data ! i))) = Some f"
    using assms(2,3,5) by (simp add: norm_map_last)
  then have "find_img (norm_map (pre @ f # post)) (data ! i) = Some f"
    by (rule find_img_name)
  then have "update_entry (norm_map (pre @ f # post)) (data ! i) = (data ! i)\<lparr>e_image := Some f\<rparr>"
    by (rule update_entry_found)
  with main_nth [OF assms(1,4)] show ?thesis by simp
qed

theorem C3_name_match_witness:
  "main (Some [\<lparr>e_name = Some ''Ann Lee'', e_aliases = None, e_image = None\<rparr>,
               \<lparr>e_name = Some ''Bo'', e_aliases = None, e_image = None\<rparr>])
        (Some ([''Ann-Lee.png''] @ ''Ann_Lee.png'' # [''Bob.png''])) =
     Inr ([\<lparr>e_name = Some ''Ann Lee'', e_aliases = None, e_image = Some ''Ann_Lee.png''\<rparr>,
           \<lparr>e_name = Some ''Bo'', e_aliases = None, e_image = Some ''Bob.png''\<rparr>],
          [''Updated 2 entries'']) \<and>
   endswith (lower ''Ann_Lee.png'') ''.png'' \<and>
   image_files [''Bob.png''] = [''Bob.png''] \<and>
   image_key ''Bob.png'' \<noteq> image_key ''Ann_Lee.png'' \<and>
   0 < length [\<lparr>e_name = Some ''Ann Lee'', e_aliases = None, e_image = None\<rparr>,
               \<lparr>e_name = Some ''Bo'', e_aliases = None, e_image = None\<rparr>] \<and>
   normalize (get_name ([\<lparr>e_name = Some ''Ann Lee'', e_aliases = None, e_image = None\<rparr>,
                         \<lparr>e_name = Some ''Bo'', e_aliases = None, e_image = None\<rparr>] ! 0)) =
     image_key ''Ann_Lee.png'' \<and>
   e_image ([\<lparr>e_name = Some ''Ann Lee'', e_aliases = None, e_image = Some ''Ann_Lee.png''\<rparr>,
             \<lparr>e_name = Some ''Bo'', e_aliases = None, e_image = Some ''Bob.png''\<rparr>] ! 0) =
     Some ''Ann_Lee.png''"
proof -
  have h1: "main (Some [\<lparr>e_name = Some ''Ann Lee'', e_aliases = None, e_image = None\<rparr>,
               \<lparr>e_name = Some ''Bo'', e_aliases = None, e_image = None\<rparr>])
        (Some ([''Ann-Lee.png''] @ ''Ann_Lee.png'' # [''Bob.png''])) =
     Inr ([\<lparr>e_name = Some ''Ann Lee'', e_aliases = None, e_image = Some ''Ann_Lee.png''\<rparr>,
           \<lparr>e_name = Some ''Bo'', e_aliases = None, e_image = Some ''Bob.png''\<rparr>],
          [''Updated 2 entries''])"
    by code_simp
  have h2: "endswith (lower ''Ann_Lee.png'') ''.png''" by code_simp
  have h3: "\<forall>g\<in>set (image_files [''Bob.png'']). image_key g \<noteq> image_key ''Ann_Lee.png''"
    by code_simp
  have h4: "0 < length [\<lparr>e_name = Some ''Ann Lee'', e_aliases = None, e_image = None\<rparr>,
               \<lparr>e_name = Some ''Bo'', e_aliases = None, e_image = None\<rparr>]"
    by simp
  have h5: "normalize (get_name ([\<lparr>e_name = Some ''Ann Lee'', e_aliases = None, e_image = None\<rparr>,
                         \<lparr>e_name = Some ''Bo'', e_aliases = None, e_image = None\<rparr>] ! 0)) =
     image_key ''Ann_Lee.png''"
    by code_simp
  have files: "image_files [''Bob.png''] = [''Bob.png'']" by code_simp
  have key: "image_key ''Bob.png'' \<noteq> image_key ''Ann_Lee.png''" by code_simp
  note c = C3_name_match [OF h1 h2 h3 h4 h5]
  show ?thesis
    by (rule conjI [OF h1 conjI [OF h2 conjI [OF files conjI [OF key conjI [OF h4
          conjI [OF h5 c]]]]]])
qed

text \<open>
  Claim C3 as stated fails in two ways. Two files with the same key: the later one in the
  listing is stored, so a record named \<^verbatim>\<open>Ann Lee\<close> gets \<^verbatim>\<open>Ann_Lee.png\<close> and not
  \<^verbatim>\<open>Ann-Lee.png\<close>. A stem with a double quote: \<open>normalize\<close> of the name \<^verbatim>\<open>ONeil\<close>
  equals \<open>normalize\<close> of the stem of \<^verbatim>\<open>O"Neil.png\<close>, and the record gets no image.
\<close>

theorem C3_counterexample:
  "''Ann-Lee.png'' \<in> set (image_files [''Ann-Lee.png'', ''Ann_Lee.png'']) \<and>
   normalize ''Ann Lee'' = normalize (fst (splitext ''Ann-Lee.png'')) \<and>
   main (Some [\<lparr>e_name = Some ''Ann Lee'', e_aliases = None, e_image = None\<rparr>])
        (Some [''Ann-Lee.png'', ''Ann_Lee.png'']) =
     Inr ([\<lparr>e_name = Some ''Ann Lee'', e_aliases = None, e_image = Some ''Ann_Lee.png''\<rparr>],
          [''Updated 1 entries'']) \<and>
   ''O'' @ dquote # ''Neil.png'' \<in> set (image_files [''O'' @ dquote # ''Neil.png'']) \<and>
   normalize ''ONeil'' = normalize (fst (splitext (''O'' @ dquote # ''Neil.png''))) \<and>
   main (Some [\<lparr>e_name = Some ''ONeil'', e_aliases = None, e_image = None\<rparr>])
        (Some [''O'' @ dquote # ''Neil.png'']) =
     Inr ([\<lparr>e_name = Some ''ONeil'', e_aliases = None, e_image = None\<rparr>],
          [''No image found for ONeil'', ''Updated 0 entries''])"
  by code_simp

text \<open>
  Claim C4, as amended. When the normalized name of a record is no key of the index, the
  record gets the file of the first alias, in the given order, whose normalization is a
  key of the index.
\<close>

theorem C4_first_alias:
  assumes "main (Some data) (Some listing) = Inr (data', out)"
    and "i < length data"
    and "dict_get (norm_map listing) (normalize (get_name (data ! i))) = None"
    and "get_aliases (data ! i) = pre @ a # post"
    and "\<forall>b\<in>set pre. dict_get (norm_map listing) (normalize b) = None"
    and "dict_get (norm_map listing) (normalize a) = Some f"
  shows "e_image (data' ! i) = Some f"
proof -
  have "find_img (norm_map listing) (data ! i) = Some f"
    using assms(3-6) by (rule find_img_alias)
  then have "update_entry (norm_map listing) (data ! i) = (data ! i)\<lparr>e_image := Some f\<rparr>"
    by (rule update_entry_found)
  with main_nth [OF assms(1,2)] show ?thesis by simp
qed

theorem C4_first_alias_witness:
  "main (Some [\<lparr>e_name = Some ''Cy'', e_aliases = Some [''Zed'', ''Bo'', ''Al''], e_image = None\<rparr>])
        (Some [''Al.png'', ''Bo.png'']) =
     Inr ([\<lparr>e_name = Some ''Cy'', e_aliases = Some [''Zed'', ''Bo'', ''Al''],
              e_image = Some ''Bo.png''\<rparr>],
          [''Updated 1 entries'']) \<and>
   0 < length [\<lparr>e_name = Some ''Cy'', e_aliases = Some [''Zed'', ''Bo'', ''Al''], e_image = None\<rparr>] \<and>
   dict_get (norm_map [''Al.png'', ''Bo.png''])
     (normalize (get_name
        ([\<lparr>e_name = Some ''Cy'', e_aliases = Some [''Zed'', ''Bo'', ''Al''], e_image = None\<rparr>] ! 0))) =
     None \<and>
   get_aliases
     ([\<lparr>e_name = Some ''Cy'', e_aliases = Some [''Zed'', ''Bo'', ''Al''], e_image = None\<rparr>] ! 0) =
     [''Zed''] @ ''Bo'' # [''Al''] \<and>
   dict_get (norm_map [''Al.png'', ''Bo.png'']) (normalize ''Zed'') = None \<and>
   dict_get (norm_map [''Al.png'', ''Bo.png'']) (normalize ''Bo'') = Some ''Bo.png'' \<and>
   e_image ([\<lparr>e_name = Some ''Cy'', e_aliases = Some [''Zed'', ''Bo'', ''Al''],
               e_image = Some ''Bo.png''\<rparr>] ! 0) = Some ''Bo.png''"
proof -
  have h1: "main (Some [\<lparr>e_name = Some ''Cy'', e_aliases = Some [''Zed'', ''Bo'', ''Al''], e_image = None\<rparr>])
        (Some [''Al.png'', ''Bo.png'']) =
     Inr ([\<lparr>e_name = Some ''Cy'', e_aliases = Some [''Zed'', ''Bo'', ''Al''],
              e_image = Some ''Bo.png''\<rparr>],
          [''Updated 1 entries''])"
    by code_simp
  have h2: "0 < length [\<lparr>e_name = Some ''Cy'', e_aliases = Some [''Zed'', ''Bo'', ''Al''], e_image = None\<rparr>]"
    by simp
  have h3: "dict_get (norm_map [''Al.png'', ''Bo.png''])
     (normalize (get_name
        ([\<lparr>e_name = Some ''Cy'', e_aliases = Some [''Zed'', ''Bo'', ''Al''], e_image = None\<rparr>] ! 0))) =
     None"
    by code_simp
  have h4: "get_aliases
     ([\<lparr>e_name = Some ''Cy'', e_aliases = Some [''Zed'', ''Bo'', ''Al''], e_image = None\<rparr>] ! 0) =
     [''Zed''] @ ''Bo'' # [''Al'']"
    by code_simp
  have h5: "\<forall>b\<in>set [''Zed'']. dict_get (norm_map [''Al.png'', ''Bo.png'']) (normalize b) = None"
    by code_simp
  have h6: "dict_get (norm_map [''Al.png'', ''Bo.png'']) (normalize ''Bo'') = Some ''Bo.png''"
    by code_simp
  have zed: "dict_get (norm_map [''Al.png'', ''Bo.png'']) (normalize ''Zed'') = None"
    by code_simp
  note c = C4_first_alias [OF h1 h2 h3 h4 h5 h6]
  show ?thesis
    by (rule conjI [OF h1 conjI [OF h2 conjI [OF h3 conjI [OF h4 conjI [OF zed
          conjI [OF h6 c]]]]]])
qed

text \<open>
  Claim C4 as stated fails for a record with two aliases that are keys of different files:
  the alias \<^verbatim>\<open>Al\<close> is the key of \<^verbatim>\<open>Al.png\<close>, and the record gets \<^verbatim>\<open>Bo.png\<close>, the
  file of the alias \<^verbatim>\<open>Bo\<close> that comes first.
\<close>

theorem C4_counterexample:
  "dict_get (norm_map [''Al.png'', ''Bo.png'']) (normalize ''Cy'') = None \<and>
   dict_get (norm_map [''Al.png'', ''Bo.png'']) (normalize ''Al'') = Some ''Al.png'' \<and>
   main (Some [\<lparr>e_name = Some ''Cy'', e_aliases = Some [''Bo'', ''Al''], e_image = None\<rparr>])
        (Some [''Al.png'', ''Bo.png'']) =
     Inr ([\<lparr>e_name = Some ''Cy'', e_aliases = Some [''Bo'', ''Al''], e_image = Some ''Bo.png''\<rparr>],
          [''Updated 1 entries''])"
  by code_simp

text \<open>
  Claim C5. The last line that the run prints is \<^verbatim>\<open>Updated\<close>, the count in decimal
  digits and \<^verbatim>\<open>entries\<close>, and the digits denote the count. The count is the number of
  records for which the loop stores an image: it stores one in exactly the records for
  which a file was found, and it leaves every other record as it is. For an input in which
  no record has an image yet, the count is the number of records of the written list that
  have an image.
\<close>

theorem C5_count:
  assumes "match_loop (norm_map listing) data 0 [] = (data', count, out)"
  shows "main (Some data) (Some listing) =
      Inr (data', out @ [''Updated '' @ str_nat count @ '' entries'']) \<and>
    decimal_value (str_nat count) = count \<and>
    count = length (filter (sets_image (norm_map listing)) data) \<and>
    (\<forall>i<length data.
       if sets_image (norm_map listing) (data ! i)
       then find_img (norm_map listing) (data ! i) \<noteq> None \<and>
            e_image (data' ! i) = find_img (norm_map listing) (data ! i)
       else data' ! i = data ! i) \<and>
    ((\<forall>r\<in>set data. e_image r = None) \<longrightarrow>
       count = length (filter (\<lambda>r. e_image r \<noteq> None) data'))"
proof -
  let ?nm = "norm_map listing"
  from assms have d: "data' = map (update_entry ?nm) data"
    and c: "count = length (filter (sets_image ?nm) data)"
    and o: "out = unmatched_lines ?nm data"
    by (simp_all add: match_loop_eq)
  have "main (Some data) (Some listing) =
      Inr (data', out @ [''Updated '' @ str_nat count @ '' entries''])"
    unfolding main_eq d c o summary_def by (rule refl)
  moreover have "\<forall>i<length data.
       if sets_image ?nm (data ! i)
       then find_img ?nm (data ! i) \<noteq> None \<and> e_image (data' ! i) = find_img ?nm (data ! i)
       else data' ! i = data ! i"
    by (simp add: d update_entry_def sets_image_norm_map)
  moreover have "(\<forall>r\<in>set data. e_image r = None) \<longrightarrow>
       count = length (filter (\<lambda>r. e_image r \<noteq> None) data')"
    unfolding d c by (rule impI, rule sym, rule match_loop_count_fresh)
  ultimately show ?thesis using c decimal_value_str_nat [of count] by simp
qed

theorem C5_count_witness:
  "match_loop (norm_map [''Ann_Lee.png''])
     [\<lparr>e_name = Some ''Ann Lee'', e_aliases = None, e_image = None\<rparr>,
      \<lparr>e_name = Some ''Zed'', e_aliases = None, e_image = None\<rparr>] 0 [] =
     ([\<lparr>e_name = Some ''Ann Lee'', e_aliases = None, e_image = Some ''Ann_Lee.png''\<rparr>,
       \<lparr>e_name = Some ''Zed'', e_aliases = None, e_image = None\<rparr>],
      1, [''No image found for Zed'']) \<and>
   map e_image [\<lparr>e_name = Some ''Ann Lee'', e_aliases = None, e_image = None\<rparr>,
                \<lparr>e_name = Some ''Zed'', e_aliases = None, e_image = None\<rparr>] = [None, None] \<and>
   main (Some [\<lparr>e_name = Some ''Ann Lee'', e_aliases = None, e_image = None\<rparr>,
               \<lparr>e_name = Some ''Zed'', e_aliases = None, e_image = None\<rparr>])
        (Some [''Ann_Lee.png'']) =
     Inr ([\<lparr>e_name = Some ''Ann Lee'', e_aliases = None, e_image = Some ''Ann_Lee.png''\<rparr>,
           \<lparr>e_name = Some ''Zed'', e_aliases = None, e_image = None\<rparr>],
          [''No image found for Zed'', ''Updated 1 entries'']) \<and>
   decimal_value ''1'' = 1 \<and>
   1 = length (filter (\<lambda>r. e_image r \<noteq> None)
         [\<lparr>e_name = Some ''Ann Lee'', e_aliases = None, e_image = Some ''Ann_Lee.png''\<rparr>,
          \<lparr>e_name = Some ''Zed'', e_aliases = None, e_image = None\<rparr>])"
proof -
  have h: "match_loop (norm_map [''Ann_Lee.png''])
     [\<lparr>e_name = Some ''Ann Lee'', e_aliases = None, e_image = None\<rparr>,
      \<lparr>e_name = Some ''Zed'', e_aliases = None, e_image = None\<rparr>] 0 [] =
     ([\<lparr>e_name = Some ''Ann Lee'', e_aliases = None, e_image = Some ''Ann_Lee.png''\<rparr>,
       \<lparr>e_name = Some ''Zed'', e_aliases = None, e_image = None\<rparr>],
      1, [''No image found for Zed''])"
    by code_simp
  have fresh: "\<forall>r\<in>set [\<lparr>e_name = Some ''Ann Lee'', e_aliases = None, e_image = None\<rparr>,
              \<lparr>e_name = Some ''Zed'', e_aliases = None, e_image = None\<rparr>]. e_image r = None"
    by simp
  have images: "map e_image [\<lparr>e_name = Some ''Ann Lee'', e_aliases = None, e_image = None\<rparr>,
                \<lparr>e_name = Some ''Zed'', e_aliases = None, e_image = None\<rparr>] = [None, None]"
    by simp
  have digits: "str_nat 1 = ''1''" by code_simp
  have line: "[''No image found for Zed''] @ [''Updated '' @ ''1'' @ '' entries''] =
      [''No image found for Zed'', ''Updated 1 entries'']"
    by simp
  note c = C5_count [OF h]
  note run = conjunct1 [OF c, unfolded digits line]
  note dec = conjunct1 [OF conjunct2 [OF c], unfolded digits]
  note cnt = mp [OF conjunct2 [OF conjunct2 [OF conjunct2 [OF conjunct2 [OF c]]]] fresh]
  show ?thesis
    by (rule conjI [OF h conjI [OF images conjI [OF run conjI [OF dec cnt]]]])
qed



text \<open>
  Claim C7, as amended. The run is idempotent for a fixed directory listing: a second run
  on the list that the first run wrote, with the directory listing the same files in the
  same order, writes the same list again (and prints the same lines).
\<close>

theorem C7_idempotent:
  "main (Some data) (Some listing) = Inr (data', out) \<Longrightarrow>
   main (Some data') (Some listing) = Inr (data', out)"
proof -
  assume run: "main (Some data) (Some listing) = Inr (data', out)"
  let ?nm = "norm_map listing"
  have sets: "sets_image ?nm (update_entry ?nm r) = sets_image ?nm r" for r :: "'a entry_scheme"
    by (simp add: sets_image_def)
  have name: "get_name (update_entry ?nm r) = get_name r" for r :: "'a entry_scheme"
    by (simp add: update_entry_def get_name_def)
  from run have d: "data' = map (update_entry ?nm) data"
    and o: "out = unmatched_lines ?nm data @ [summary (length (filter (sets_image ?nm) data))]"
    by (simp_all add: main_eq)
  have "map (update_entry ?nm) data' = data'"
    by (simp add: d update_entry_idem)
  moreover have
    "filter (sets_image ?nm) data' = map (update_entry ?nm) (filter (sets_image ?nm) data)"
    by (simp add: d filter_map o_def sets)
  moreover have "unmatched_lines ?nm data' = unmatched_lines ?nm data"
    by (simp add: d unmatched_lines_def filter_map o_def sets name)
  ultimately show ?thesis
    by (simp add: main_eq o)
qed

theorem C7_idempotent_witness:
  "main (Some [\<lparr>e_name = Some ''Ann Lee'', e_aliases = None, e_image = Some ''x.png''\<rparr>,
               \<lparr>e_name = Some ''Bo'', e_aliases = Some [''Cy''], e_image = None\<rparr>])
        (Some [''Ann-Lee.png'', ''Ann_Lee.png'']) =
     Inr ([\<lparr>e_name = Some ''Ann Lee'', e_aliases = None, e_image = Some ''Ann_Lee.png''\<rparr>,
           \<lparr>e_name = Some ''Bo'', e_aliases = Some [''Cy''], e_image = None\<rparr>],
          [''No image found for Bo'', ''Updated 1 entries'']) \<and>
   main (Some [\<lparr>e_name = Some ''Ann Lee'', e_aliases = None, e_image = Some ''Ann_Lee.png''\<rparr>,
               \<lparr>e_name = Some ''Bo'', e_aliases = Some [''Cy''], e_image = None\<rparr>])
        (Some [''Ann-Lee.png'', ''Ann_Lee.png'']) =
     Inr ([\<lparr>e_name = Some ''Ann Lee'', e_aliases = None, e_image = Some ''Ann_Lee.png''\<rparr>,
           \<lparr>e_name = Some ''Bo'', e_aliases = Some [''Cy''], e_image = None\<rparr>],
          [''No image found for Bo'', ''Updated 1 entries''])"
proof -
  have first:
    "main (Some [\<lparr>e_name = Some ''Ann Lee'', e_aliases = None, e_image = Some ''x.png''\<rparr>,
                 \<lparr>e_name = Some ''Bo'', e_aliases = Some [''Cy''], e_image = None\<rparr>])
          (Some [''Ann-Lee.png'', ''Ann_Lee.png'']) =
       Inr ([\<lparr>e_name = Some ''Ann Lee'', e_aliases = None, e_image = Some ''Ann_Lee.png''\<rparr>,
             \<lparr>e_name = Some ''Bo'', e_aliases = Some [''Cy''], e_image = None\<rparr>],
            [''No image found for Bo'', ''Updated 1 entries''])"
    by code_simp
  show ?thesis
    by (rule conjI [OF first C7_idempotent [OF first]])
qed

text \<open>
  Claim C7 as stated, for the same set of images, fails when the directory lists the files
  in another order: of two files with the same key the one listed later is stored, so the
  second run replaces \<^verbatim>\<open>Ann_Lee.png\<close> by \<^verbatim>\<open>Ann-Lee.png\<close>.
\<close>

theorem C7_counterexample:
  "main (Some [\<lparr>e_name = Some ''Ann Lee'', e_aliases = None, e_image = None\<rparr>])
        (Some [''Ann-Lee.png'', ''Ann_Lee.png'']) =
     Inr ([\<lparr>e_name = Some ''Ann Lee'', e_aliases = None, e_image = Some ''Ann_Lee.png''\<rparr>],
          [''Updated 1 entries'']) \<and>
   set [''Ann_Lee.png'', ''Ann-Lee.png''] = set [''Ann-Lee.png'', ''Ann_Lee.png''] \<and>
   main (Some [\<lparr>e_name = Some ''Ann Lee'', e_aliases = None, e_image = Some ''Ann_Lee.png''\<rparr>])
        (Some [''Ann_Lee.png'', ''Ann-Lee.png'']) =
     Inr ([\<lparr>e_name = Some ''Ann Lee'', e_aliases = None, e_image = Some ''Ann-Lee.png''\<rparr>],
          [''Updated 1 entries'']) \<and>
   [\<lparr>e_name = Some ''Ann Lee'', e_aliases = None, e_image = Some ''Ann-Lee.png''\<rparr>] \<noteq>
   [\<lparr>e_name = Some ''Ann Lee'', e_aliases = None, e_image = Some ''Ann_Lee.png''\<rparr>]"
  by code_simp

text \<open>
  Claim C8. The example of the specification, for both orders in which the directory may
  list the two files: the first record gets \<^verbatim>\<open>John_Smith.png\<close>, the second gets
  \<^verbatim>\<open>Jane-Doe.png\<close> through its alias, the third gets no image and its diagnostic is
  printed, and the count is 2.
\<close>

theorem C8_example:
  "main (Some [\<lparr>e_name = Some ''John Smith'', e_aliases = None, e_image = None\<rparr>,
               \<lparr>e_name = Some ''Jane O'Doe'', e_aliases = Some [''Jane Doe''], e_image = None\<rparr>,
               \<lparr>e_name = Some ''Unknown Person'', e_aliases = None, e_image = None\<rparr>])
        (Some [''John_Smith.png'', ''Jane-Doe.png'']) =
     Inr ([\<lparr>e_name = Some ''John Smith'', e_aliases = None, e_image = Some ''John_Smith.png''\<rparr>,
           \<lparr>e_name = Some ''Jane O'Doe'', e_aliases = Some [''Jane Doe''],
              e_image = Some ''Jane-Doe.png''\<rparr>,
           \<lparr>e_name = Some ''Unknown Person'', e_aliases = None, e_image = None\<rparr>],
          [''No image found for Unknown Person'', ''Updated 2 entries'']) \<and>
   main (Some [\<lparr>e_name = Some ''John Smith'', e_aliases = None, e_image = None\<rparr>,
               \<lparr>e_name = Some ''Jane O'Doe'', e_aliases = Some [''Jane Doe''], e_image = None\<rparr>,
               \<lparr>e_name = Some ''Unknown Person'', e_aliases = None, e_image = None\<rparr>])
        (Some [''Jane-Doe.png'', ''John_Smith.png'']) =
     Inr ([\<lparr>e_name = Some ''John Smith'', e_aliases = None, e_image = Some ''John_Smith.png''\<rparr>,
           \<lparr>e_name = Some ''Jane O'Doe'', e_aliases = Some [''Jane Doe''],
              e_image = Some ''Jane-Doe.png''\<rparr>,
           \<lparr>e_name = Some ''Unknown Person'', e_aliases = None, e_image = None\<rparr>],
          [''No image found for Unknown Person'', ''Updated 2 entries''])"
  by code_simp

text \<open>
  Claim C9. Let the name of a record be empty, missing or made of separators only, so that
  it has no non-empty part, and let neither its normalized name nor any of its aliases be
  a key of the index. If the index is not empty, the record gets the file of the first key
  of the index, and the loop goes on with the count increased by one and no diagnostic
  printed.
\<close>

theorem C9_no_parts:
  assumes "\<forall>c\<in>set (get_name r). is_sep c"
    and "dict_get (norm_map listing) (normalize (get_name r)) = None"
    and "match_aliases (norm_map listing) (get_aliases r) = None"
    and "norm_map listing = (key, filename) # items"
  shows "name_parts (get_name r) = [] \<and>
    find_img (norm_map listing) r = Some filename \<and>
    match_loop (norm_map listing) (r # rest) count out =
      (case match_loop (norm_map listing) rest (count + 1) out of
         (data', count', out') \<Rightarrow> (r\<lparr>e_image := Some filename\<rparr> # data', count', out'))"
proof -
  have parts: "name_parts (get_name r) = []"
    using assms(1) by (simp add: name_parts_empty_iff)
  have "match_parts (name_parts (get_name r)) (norm_map listing) = Some filename"
    unfolding parts assms(4) by (rule match_parts_no_parts)
  with assms(2,3) have img: "find_img (norm_map listing) r = Some filename"
    by (simp add: find_img_def)
  have "(key, filename) \<in> set (norm_map listing)"
    by (simp add: assms(4))
  then have "filename \<noteq> []"
    by (rule norm_map_item_nonempty)
  with img parts show ?thesis
    by (simp add: truthy_def)
qed

theorem C9_no_parts_witness:
  "list_all is_sep
     (get_name \<lparr>e_name = Some '' - '', e_aliases = Some [''Zed''], e_image = None\<rparr>) \<and>
   dict_get (norm_map [''Ann_Lee.png'', ''Bob.png''])
     (normalize (get_name \<lparr>e_name = Some '' - '', e_aliases = Some [''Zed''], e_image = None\<rparr>)) =
     None \<and>
   match_aliases (norm_map [''Ann_Lee.png'', ''Bob.png''])
     (get_aliases \<lparr>e_name = Some '' - '', e_aliases = Some [''Zed''], e_image = None\<rparr>) = None \<and>
   norm_map [''Ann_Lee.png'', ''Bob.png''] =
     (''Ann_Lee'', ''Ann_Lee.png'') # [(''Bob'', ''Bob.png'')] \<and>
   find_img (norm_map [''Ann_Lee.png'', ''Bob.png''])
     \<lparr>e_name = Some '' - '', e_aliases = Some [''Zed''], e_image = None\<rparr> = Some ''Ann_Lee.png''"
proof -
  have h1: "\<forall>c\<in>set (get_name \<lparr>e_name = Some '' - '', e_aliases = Some [''Zed''], e_image = None\<rparr>).
      is_sep c"
    by code_simp
  have h2: "dict_get (norm_map [''Ann_Lee.png'', ''Bob.png''])
     (normalize (get_name \<lparr>e_name = Some '' - '', e_aliases = Some [''Zed''], e_image = None\<rparr>)) =
     None"
    by code_simp
  have h3: "match_aliases (norm_map [''Ann_Lee.png'', ''Bob.png''])
     (get_aliases \<lparr>e_name = Some '' - '', e_aliases = Some [''Zed''], e_image = None\<rparr>) = None"
    by code_simp
  have h4: "norm_map [''Ann_Lee.png'', ''Bob.png''] =
     (''Ann_Lee'', ''Ann_Lee.png'') # [(''Bob'', ''Bob.png'')]"
    by code_simp
  have seps: "list_all is_sep
     (get_name \<lparr>e_name = Some '' - '', e_aliases = Some [''Zed''], e_image = None\<rparr>)"
    by code_simp
  note c = conjunct1 [OF conjunct2 [OF C9_no_parts [OF h1 h2 h3 h4, of "[]" 0 "[]"]]]
  show ?thesis
    by (rule conjI [OF seps conjI [OF h2 conjI [OF h3 conjI [OF h4 c]]]])
qed

text \<open>
  Claim C10. The run writes as many records as it read; the name, the aliases and every
  other field of each record are unchanged, and the image of a record differs from the one
  it had only if a file was found for the record.
\<close>

theorem C10_frame:
  assumes "main (Some data) (Some listing) = Inr (data', out)"
  shows "length data' = length data \<and>
    (\<forall>i<length data.
       e_name (data' ! i) = e_name (data ! i) \<and>
       e_aliases (data' ! i) = e_aliases (data ! i) \<and>
       entry.more (data' ! i) = entry.more (data ! i) \<and>
       (e_image (data' ! i) \<noteq> e_image (data ! i) \<longrightarrow>
          find_img (norm_map listing) (data ! i) \<noteq> None))"
proof (intro conjI allI impI)
  show "length data' = length data" using assms by (rule main_length)
next
  fix i assume i: "i < length data"
  note nth = main_nth [OF assms i]
  show "e_name (data' ! i) = e_name (data ! i)" by (simp add: nth update_entry_def)
  show "e_aliases (data' ! i) = e_aliases (data ! i)" by (simp add: nth update_entry_def)
  show "entry.more (data' ! i) = entry.more (data ! i)" by (simp add: nth update_entry_def)
  assume "e_image (data' ! i) \<noteq> e_image (data ! i)"
  then show "find_img (norm_map listing) (data ! i) \<noteq> None"
    by (cases "find_img (norm_map listing) (data ! i)")
       (simp_all add: nth update_entry_not_found)
qed

theorem C10_frame_witness:
  "main (Some [\<lparr>e_name = Some ''Ann Lee'', e_aliases = None, e_image = None\<rparr>,
               \<lparr>e_name = None, e_aliases = Some [''Zed''], e_image = Some ''old.png''\<rparr>])
        (Some [''Ann_Lee.png'', ''Bob.png'']) =
     Inr ([\<lparr>e_name = Some ''Ann Lee'', e_aliases = None, e_image = Some ''Ann_Lee.png''\<rparr>,
           \<lparr>e_name = None, e_aliases = Some [''Zed''], e_image = Some ''Ann_Lee.png''\<rparr>],
          [''Updated 2 entries'']) \<and>
   length [\<lparr>e_name = Some ''Ann Lee'', e_aliases = None, e_image = Some ''Ann_Lee.png''\<rparr>,
           \<lparr>e_name = None, e_aliases = Some [''Zed''], e_image = Some ''Ann_Lee.png''\<rparr>] =
   length [\<lparr>e_name = Some ''Ann Lee'', e_aliases = None, e_image = None\<rparr>,
           \<lparr>e_name = None, e_aliases = Some [''Zed''], e_image = Some ''old.png''\<rparr>]"
proof -
  have h: "main (Some [\<lparr>e_name = Some ''Ann Lee'', e_aliases = None, e_image = None\<rparr>,
               \<lparr>e_name = None, e_aliases = Some [''Zed''], e_image = Some ''old.png''\<rparr>])
        (Some [''Ann_Lee.png'', ''Bob.png'']) =
     Inr ([\<lparr>e_name = Some ''Ann Lee'', e_aliases = None, e_image = Some ''Ann_Lee.png''\<rparr>,
           \<lparr>e_name = None, e_aliases = Some [''Zed''], e_image = Some ''Ann_Lee.png''\<rparr>],
          [''Updated 2 entries''])"
    by code_simp
  show ?thesis
    by (rule conjI [OF h conjunct1 [OF C10_frame [OF h]]])
qed

end
